theory Spec2Isabelle
  imports Main "HOL-Library.Word" "HOL-Library.Char_ord" "HOL-Library.List_Lexorder"
begin

section \<open>Outcomes of the member functions\<close>

text \<open>
  \<^verbatim>\<open>ParameterParser.cpp\<close> throws one exception class, \<^verbatim>\<open>ParserException\<close>, whose message
  is built at the throw site. Each constructor below stands for one throw site and keeps the
  values that are streamed into its message:

  \<^item> \<open>ParameterExists name\<close>: "Parameter "name" already exists!" (\<^verbatim>\<open>addParameter\<close>);
  \<^item> \<open>CannotOpenForReading filename\<close>: "Could not open file "filename" for reading!";
  \<^item> \<open>ParameterWithoutValue lineCount filename\<close>: "Found parameter without value in line
    lineCount of configuration file "filename"!";
  \<^item> \<open>IdentifierWithoutValue lineCount filename\<close>: "Found identifier without value in line
    lineCount of configuration file "filename"!";
  \<^item> \<open>CannotOpenForWriting filename\<close>: "Could not open file "filename" for writing!";
  \<^item> \<open>UnknownParameterName name\<close>: "Unknown parameter name: "name"" (\<^verbatim>\<open>getParameterValue\<close>);
  \<^item> \<open>NoValueForParameter name\<close>: "No value for parameter "name" read and no default value
    defined." (\<^verbatim>\<open>getParameterValue\<close>).

  \<open>OutOfBoundsRead pos\<close> is not an exception: it records that \<^verbatim>\<open>std::string::operator[]\<close>
  was applied to a position \<open>pos\<close> beyond \<^verbatim>\<open>size()\<close>, which C++ leaves undefined.
\<close>

datatype error =
    ParameterExists string
  | CannotOpenForReading string
  | ParameterWithoutValue "32 word" string
  | IdentifierWithoutValue "32 word" string
  | CannotOpenForWriting string
  | UnknownParameterName string
  | NoValueForParameter string
  | OutOfBoundsRead nat

section \<open>The operations of \<^verbatim>\<open>std::string\<close> that the parser uses\<close>

text \<open>\<^verbatim>\<open>s.find(c)\<close> for a character: the first position of \<open>c\<close>, or \<^verbatim>\<open>npos\<close> (\<open>None\<close>).\<close>

fun find_char :: "char \<Rightarrow> string \<Rightarrow> nat option" where
  "find_char c [] = None"
| "find_char c (x # xs) = (if x = c then Some 0 else map_option Suc (find_char c xs))"

fun starts_with :: "string \<Rightarrow> string \<Rightarrow> bool" where
  "starts_with [] s = True"
| "starts_with (p # ps) [] = False"
| "starts_with (p # ps) (c # cs) = (p = c \<and> starts_with ps cs)"

text \<open>\<^verbatim>\<open>s.find(pat, 0)\<close> for a string: the first position at which \<open>pat\<close> occurs in \<open>s\<close>
  (an empty \<open>pat\<close> occurs at position 0), or \<^verbatim>\<open>npos\<close>.\<close>

fun find_str :: "string \<Rightarrow> string \<Rightarrow> nat option" where
  "find_str pat [] = (if pat = [] then Some 0 else None)"
| "find_str pat (c # cs) =
     (if starts_with pat (c # cs) then Some 0 else map_option Suc (find_str pat cs))"

text \<open>\<^verbatim>\<open>s.substr(pos, count)\<close>; \<open>None\<close> as count is \<^verbatim>\<open>npos\<close> (up to the end). The parser
  calls it with \<open>pos = 0\<close> and with \<open>pos = nameEnd + 1\<close> where \<open>nameEnd\<close> is a position found
  in \<open>s\<close>, so \<open>pos\<close> never exceeds the size and the call never throws.\<close>

definition substr :: "string \<Rightarrow> nat \<Rightarrow> nat option \<Rightarrow> string" where
  "substr s pos cnt = (case cnt of None \<Rightarrow> drop pos s | Some n \<Rightarrow> take n (drop pos s))"

text \<open>\<^verbatim>\<open>s[pos]\<close>: the character at \<open>pos\<close> when \<open>pos < size()\<close>, the terminating null character
  when \<open>pos = size()\<close>, and undefined (\<open>None\<close>) beyond.\<close>

definition str_at :: "string \<Rightarrow> nat \<Rightarrow> char option" where
  "str_at s pos =
     (if pos < length s then Some (s ! pos)
      else if pos = length s then Some (CHR 0x00)
      else None)"

text \<open>\<^verbatim>\<open>s.erase(pos, n)\<close> for \<open>pos \<le> size()\<close>. Both loops of \<^verbatim>\<open>trim\<close> erase at a position
  where they have just read a space, which is a position below the size.\<close>

definition erase :: "string \<Rightarrow> nat \<Rightarrow> nat \<Rightarrow> string" where
  "erase s pos n = take pos s @ drop (pos + n) s"

section \<open>\<^verbatim>\<open>ParameterParser::trim\<close>\<close>

text \<open>The first loop, with the \<^verbatim>\<open>unsigned\<close> counter \<open>i\<close>:
  \<^verbatim>\<open>while (i < str.length() && str[i] == ' ') { str.erase(i, 1); i++; }\<close>\<close>

function trim_leading :: "32 word \<Rightarrow> string \<Rightarrow> string" where
  "trim_leading i str =
     (if unat i < length str \<and> str_at str (unat i) = Some CHR '' ''
      then trim_leading (i + 1) (erase str (unat i) 1)
      else str)"
  by pat_completeness auto
termination
  by (relation "measure (\<lambda>(i, str). length str)") (auto simp: erase_def)

text \<open>The second loop:
  \<^verbatim>\<open>while (i >= 0 && str[i] == ' ') { str.erase(i, 1); i--; }\<close>
  The read \<^verbatim>\<open>str[i]\<close> is not guarded by the length.\<close>

function trim_trailing :: "32 word \<Rightarrow> string \<Rightarrow> error + string" where
  "trim_trailing i str =
     (if 0 \<le> i then
        (case str_at str (unat i) of
           None \<Rightarrow> Inl (OutOfBoundsRead (unat i))
         | Some c \<Rightarrow>
             if c = CHR '' '' then trim_trailing (i - 1) (erase str (unat i) 1)
             else Inr str)
      else Inr str)"
  by pat_completeness auto
termination
  by (relation "measure (\<lambda>(i, str). length str)")
     (auto simp: erase_def str_at_def split: if_splits)

text \<open>Between the loops, \<^verbatim>\<open>i = str.length() - 1\<close> is computed in \<^verbatim>\<open>size_t\<close> and stored in
  the 32-bit \<open>i\<close>: the length minus one, modulo \<open>2 ^ 32\<close>.\<close>

definition trim :: "string \<Rightarrow> error + string" where
  "trim str =
     (let str1 = trim_leading 0 str
      in trim_trailing (word_of_nat (length str1) - 1) str1)"

section \<open>The parameter map\<close>

text \<open>\<^verbatim>\<open>nameValueMap\<close> is a \<^verbatim>\<open>std::map<std::string, std::string>\<close>: its entries are kept,
  and iterated, in increasing order of the key, and \<^verbatim>\<open>operator<\<close> on \<^verbatim>\<open>std::string\<close> is the
  lexicographic order on the bytes. The model is the list of entries in iteration order.\<close>

type_synonym name_value_map = "(string \<times> string) list"

text \<open>\<^verbatim>\<open>find(name)\<close>: the value of the entry found, \<open>None\<close> for \<^verbatim>\<open>end()\<close>.\<close>

fun map_find :: "string \<Rightarrow> name_value_map \<Rightarrow> string option" where
  "map_find k [] = None"
| "map_find k ((k', v') # m) = (if k = k' then Some v' else map_find k m)"

text \<open>\<^verbatim>\<open>insert(make_pair(k, v))\<close>: a new entry at its place in the order; an existing key
  keeps its entry.\<close>

fun map_insert :: "string \<times> string \<Rightarrow> name_value_map \<Rightarrow> name_value_map" where
  "map_insert (k, v) [] = [(k, v)]"
| "map_insert (k, v) ((k', v') # m) =
     (if k < k' then (k, v) # (k', v') # m
      else if k = k' then (k', v') # m
      else (k', v') # map_insert (k, v) m)"

text \<open>\<^verbatim>\<open>found->second = value\<close> for the entry found under \<open>k\<close>.\<close>

fun map_assign :: "string \<Rightarrow> string \<Rightarrow> name_value_map \<Rightarrow> name_value_map" where
  "map_assign k v [] = []"
| "map_assign k v ((k', v') # m) =
     (if k = k' then (k', v) # m else (k', v') # map_assign k v m)"

text \<open>What a \<^verbatim>\<open>std::map\<close> guarantees of its entries: strictly increasing keys.\<close>

definition map_ordered :: "name_value_map \<Rightarrow> bool" where
  "map_ordered m = sorted_wrt (<) (map fst m)"

section \<open>The class \<^verbatim>\<open>ParameterParser\<close>\<close>

record ParameterParser =
  nameValueMap :: name_value_map
  commentString :: string

definition NO_DEFAULT_VALUE_STRING :: string where
  "NO_DEFAULT_VALUE_STRING = ''_#N/A#_''"

definition DEFAULT_COMMENT_STRING :: string where
  "DEFAULT_COMMENT_STRING = ''#''"

text \<open>The constructor: an empty map and the default comment string.\<close>

definition new_ParameterParser :: ParameterParser where
  "new_ParameterParser = \<lparr>nameValueMap = [], commentString = DEFAULT_COMMENT_STRING\<rparr>"

text \<open>A member function that can throw returns the exception thrown, if any, together with
  the object as the call leaves it.\<close>

definition addParameter ::
  "string \<Rightarrow> string \<Rightarrow> ParameterParser \<Rightarrow> error option \<times> ParameterParser" where
  "addParameter name defaultValue this =
     (case map_find name (nameValueMap this) of
        Some _ \<Rightarrow> (Some (ParameterExists name), this)
      | None \<Rightarrow>
          if defaultValue = []
          then (None, this\<lparr>nameValueMap :=
                  map_insert (name, NO_DEFAULT_VALUE_STRING) (nameValueMap this)\<rparr>)
          else (None, this\<lparr>nameValueMap :=
                  map_insert (name, defaultValue) (nameValueMap this)\<rparr>))"

definition setCommentString :: "string \<Rightarrow> ParameterParser \<Rightarrow> ParameterParser" where
  "setCommentString cs this = this\<lparr>commentString := cs\<rparr>"

definition getParameterValue :: "string \<Rightarrow> ParameterParser \<Rightarrow> error + string" where
  "getParameterValue name this =
     (case map_find name (nameValueMap this) of
        None \<Rightarrow> Inl (UnknownParameterName name)
      | Some value \<Rightarrow>
          if value = NO_DEFAULT_VALUE_STRING then Inl (NoValueForParameter name)
          else Inr value)"

section \<open>Streams and files\<close>

text \<open>\<^verbatim>\<open>std::endl\<close> writes a newline character.\<close>

definition endl :: string where
  "endl = [CHR 0x0A]"

text \<open>\<^verbatim>\<open>getline(inFile, line, '\n')\<close> on the rest of the input: it fails (\<open>None\<close>) when nothing
  is left; otherwise it yields the characters before the next newline, or up to the end of
  the input when there is none, and the rest of the input after that newline.\<close>

definition getline :: "string \<Rightarrow> (string \<times> string) option" where
  "getline input =
     (if input = [] then None
      else let line = takeWhile (\<lambda>c. c \<noteq> CHR 0x0A) input
           in Some (line, drop (length line + 1) input))"

text \<open>The files the parser can reach: \<open>contents\<close> gives the text of each file that can be
  opened for reading, \<open>writable\<close> tells whether a path can be opened for writing.\<close>

record filesystem =
  contents :: "string \<Rightarrow> string option"
  writable :: "string \<Rightarrow> bool"

section \<open>\<^verbatim>\<open>ParameterParser::readParameters\<close>\<close>

text \<open>The body of the \<^verbatim>\<open>while\<close> loop up to the lookup in the map (lines 81 to 104 of the
  source), for one line read by \<^verbatim>\<open>getline\<close>: \<open>Inr None\<close> when the line is skipped
  (\<^verbatim>\<open>continue\<close>), \<open>Inr (Some (name, value))\<close> when it yields a name and a value, \<open>Inl\<close> when
  it throws. When a read in \<^verbatim>\<open>trim\<close> is out of bounds, the behaviour of the program is
  undefined from there on: the body stops with \<open>OutOfBoundsRead\<close>.\<close>

definition parse_line ::
  "string \<Rightarrow> string \<Rightarrow> 32 word \<Rightarrow> string \<Rightarrow> error + (string \<times> string) option" where
  "parse_line filename cs lineCount line =
     (let commentStart = find_str cs line;
          lineToParse = substr line 0 commentStart
      in if length lineToParse = 0 then Inr None
         else (case find_char CHR '' '' lineToParse of
                 None \<Rightarrow> Inl (ParameterWithoutValue lineCount filename)
               | Some nameEnd \<Rightarrow>
                   (case trim (substr lineToParse 0 (Some nameEnd)) of
                      Inl ub \<Rightarrow> Inl ub
                    | Inr name \<Rightarrow>
                        (case trim (substr lineToParse (nameEnd + 1) None) of
                           Inl ub \<Rightarrow> Inl ub
                         | Inr value \<Rightarrow>
                             if value = []
                             then Inl (IdentifierWithoutValue lineCount filename)
                             else Inr (Some (name, value))))))"

text \<open>The line written to \<^verbatim>\<open>std::cout\<close> for a name that is not in the map.\<close>

definition unknown_parameter_message :: "string \<Rightarrow> string" where
  "unknown_parameter_message name =
     ''Unknown parameter identifier '' @ [CHR 0x22] @ name @ [CHR 0x22]
       @ '' will be ignored!'' @ endl"

text \<open>The \<^verbatim>\<open>while (getline(inFile, line, '\n'))\<close> loop. Its state is the line counter, the
  rest of the input, the map and what has been written to \<^verbatim>\<open>std::cout\<close>; it ends with the
  exception thrown, if any, and the state reached so far.\<close>

function readParameters_loop ::
  "string \<Rightarrow> string \<Rightarrow> 32 word \<Rightarrow> string \<Rightarrow> name_value_map \<Rightarrow> string
     \<Rightarrow> error option \<times> name_value_map \<times> string" where
  "readParameters_loop filename cs lineCount input m cout =
     (case getline input of
        None \<Rightarrow> (None, m, cout)
      | Some (line, rest) \<Rightarrow>
          (case parse_line filename cs lineCount line of
             Inl e \<Rightarrow> (Some e, m, cout)
           | Inr None \<Rightarrow> readParameters_loop filename cs (lineCount + 1) rest m cout
           | Inr (Some (name, value)) \<Rightarrow>
               (case map_find name m of
                  None \<Rightarrow>
                    readParameters_loop filename cs (lineCount + 1) rest m
                      (cout @ unknown_parameter_message name)
                | Some _ \<Rightarrow>
                    readParameters_loop filename cs (lineCount + 1) rest
                      (map_assign name value m) cout)))"
  by pat_completeness auto
termination
  by (relation "measure (\<lambda>(filename, cs, lineCount, input, m, cout). length input)")
     (auto simp: getline_def Let_def split: if_splits)

definition readParameters ::
  "string \<Rightarrow> filesystem \<Rightarrow> ParameterParser \<Rightarrow> string
     \<Rightarrow> error option \<times> ParameterParser \<times> string" where
  "readParameters filename fs this cout =
     (case contents fs filename of
        None \<Rightarrow> (Some (CannotOpenForReading filename), this, cout)
      | Some input \<Rightarrow>
          (case readParameters_loop filename (commentString this) 1 input
                  (nameValueMap this) cout of
             (e, m, cout') \<Rightarrow> (e, this\<lparr>nameValueMap := m\<rparr>, cout')))"

section \<open>\<^verbatim>\<open>writeParameterFile\<close> and \<^verbatim>\<open>writeCurrentParameters\<close>\<close>

text \<open>The \<^verbatim>\<open>for\<close> loop of \<^verbatim>\<open>writeParameterFile\<close> over the entries, appending to the file.\<close>

fun writeParameterFile_loop :: "name_value_map \<Rightarrow> string \<Rightarrow> string" where
  "writeParameterFile_loop [] outFile = outFile"
| "writeParameterFile_loop ((first, second) # it) outFile =
     writeParameterFile_loop it
       (if second \<noteq> NO_DEFAULT_VALUE_STRING
        then outFile @ first @ '' '' @ second @ endl
        else outFile)"

text \<open>The file is opened with \<^verbatim>\<open>trunc\<close>: what is written replaces its contents.\<close>

definition writeParameterFile ::
  "string \<Rightarrow> ParameterParser \<Rightarrow> filesystem \<Rightarrow> error option \<times> filesystem" where
  "writeParameterFile filename this fs =
     (if \<not> writable fs filename then (Some (CannotOpenForWriting filename), fs)
      else (None, fs\<lparr>contents := (contents fs)(filename \<mapsto>
              writeParameterFile_loop (nameValueMap this)
                (commentString this @ '' Default config file generated by ParameterParser''
                   @ endl))\<rparr>))"

fun writeCurrentParameters_loop :: "name_value_map \<Rightarrow> string \<Rightarrow> string" where
  "writeCurrentParameters_loop [] stream = stream"
| "writeCurrentParameters_loop ((first, second) # it) stream =
     writeCurrentParameters_loop it
       (if second \<noteq> NO_DEFAULT_VALUE_STRING
        then stream @ first @ '' = '' @ second @ endl
        else stream @ first @ '' <no value set>'' @ endl)"

definition writeCurrentParameters :: "ParameterParser \<Rightarrow> string \<Rightarrow> string" where
  "writeCurrentParameters this stream =
     writeCurrentParameters_loop (nameValueMap this) (stream @ ''Current parameters:'' @ endl)"

section \<open>Scenarios\<close>

text \<open>A file system with no file in it, where every path can be opened for writing.\<close>

definition blank_filesystem :: filesystem where
  "blank_filesystem = \<lparr>contents = (\<lambda>path. None), writable = (\<lambda>path. True)\<rparr>"

text \<open>A file system whose only file is \<open>path\<close>, holding \<open>text\<close>.\<close>

definition single_file :: "string \<Rightarrow> string \<Rightarrow> filesystem" where
  "single_file path text =
     \<lparr>contents = (\<lambda>p. if p = path then Some text else None), writable = (\<lambda>p. False)\<rparr>"

text \<open>The two stores of the round trip: the one that writes the file, after
  \<^verbatim>\<open>addParameter("a", "1"); addParameter("b")\<close>, and the one that reads it, after
  \<^verbatim>\<open>addParameter("a"); addParameter("b", "z")\<close>.\<close>

definition roundtrip_writer :: ParameterParser where
  "roundtrip_writer =
     snd (addParameter ''b'' [] (snd (addParameter ''a'' ''1'' new_ParameterParser)))"

definition roundtrip_reader :: ParameterParser where
  "roundtrip_reader =
     snd (addParameter ''b'' ''z'' (snd (addParameter ''a'' [] new_ParameterParser)))"

section \<open>Basic facts\<close>

declare trim_leading.simps [simp del]
declare trim_trailing.simps [simp del]
declare readParameters_loop.simps [simp del]

lemma unat_minus_one_32: "unat (- 1 :: 32 word) = 4294967295"
  by (simp add: unsigned_minus_1_eq_mask mask_eq_exp_minus_1)

lemmas run_defs =
  trim_def erase_def str_at_def substr_def getline_def endl_def parse_line_def
  trim_leading.simps trim_trailing.simps readParameters_loop.simps
  unknown_parameter_message_def NO_DEFAULT_VALUE_STRING_def DEFAULT_COMMENT_STRING_def
  new_ParameterParser_def addParameter_def getParameterValue_def readParameters_def
  writeParameterFile_def writeCurrentParameters_def

subsection \<open>The map\<close>

lemma map_find_assign: "map_find k m = Some v0 \<Longrightarrow> map_find k (map_assign k v m) = Some v"
  by (induction m) (auto split: if_splits)

lemma map_find_insert_same: "map_find k m = None \<Longrightarrow> map_find k (map_insert (k, v) m) = Some v"
  by (induction m) (auto split: if_splits)

lemma keys_map_insert: "set (map fst (map_insert (k, v) m)) = insert k (set (map fst m))"
proof (induction m)
  case Nil
  show ?case by simp
next
  case (Cons e m)
  obtain k' v' where e: "e = (k', v')" by (cases e)
  show ?case using Cons.IH by (auto simp: e)
qed

lemma map_ordered_insert: "map_ordered m \<Longrightarrow> map_ordered (map_insert (k, v) m)"
proof (induction m)
  case Nil
  then show ?case by (simp add: map_ordered_def)
next
  case (Cons e m)
  obtain k' v' where e: "e = (k', v')" by (cases e)
  from Cons.prems have tl: "map_ordered m" and hd: "\<forall>x \<in> set (map fst m). k' < x"
    by (auto simp: map_ordered_def e)
  show ?case
  proof (cases "k < k'")
    case True
    with Cons.prems show ?thesis by (auto simp: map_ordered_def e)
  next
    case False
    show ?thesis
    proof (cases "k = k'")
      case True
      with Cons.prems show ?thesis by (simp add: e)
    next
      case neq: False
      with False have "k' < k" by simp
      moreover have "map_ordered (map_insert (k, v) m)" using Cons.IH tl by simp
      ultimately show ?thesis
        using False neq hd
        by (simp add: e map_ordered_def keys_map_insert del: set_map) 
    qed
  qed
qed

lemma map_fst_assign: "map fst (map_assign k v m) = map fst m"
  by (induction m) auto

lemma keys_readParameters_loop:
  "readParameters_loop filename cs lineCount input m cout = (e, m', cout') \<Longrightarrow>
   map fst m' = map fst m"
proof (induction filename cs lineCount input m cout rule: readParameters_loop.induct)
  case (1 filename cs lineCount input m cout)
  show ?case
  proof (cases "getline input")
    case None
    with "1.prems" show ?thesis by (simp add: readParameters_loop.simps)
  next
    case (Some lr)
    obtain line rest where lr: "lr = (line, rest)" by (cases lr)
    note gl = Some [unfolded lr]
    show ?thesis
    proof (cases "parse_line filename cs lineCount line")
      case (Inl err)
      with "1.prems" gl show ?thesis by (simp add: readParameters_loop.simps)
    next
      case (Inr r)
      show ?thesis
      proof (cases r)
        case None
        with "1.prems" gl Inr "1.IH"(1) [OF gl refl Inr None]
        show ?thesis by (simp add: readParameters_loop.simps)
      next
        case (Some nv)
        obtain name "value" where nv: "nv = (name, value)" by (cases nv)
        show ?thesis
        proof (cases "map_find name m")
          case None
          with "1.prems" gl Inr Some nv "1.IH"(2) [OF gl refl Inr Some nv [symmetric] None]
          show ?thesis by (simp add: readParameters_loop.simps)
        next
          case (Some v0)
          with "1.prems" gl Inr \<open>r = Some nv\<close> nv
            "1.IH"(3) [OF gl refl Inr \<open>r = Some nv\<close> nv [symmetric] Some]
          show ?thesis by (simp add: readParameters_loop.simps map_fst_assign)
        qed
      qed
    qed
  qed
qed

lemma map_ordered_new: "map_ordered (nameValueMap new_ParameterParser)"
  by (simp add: map_ordered_def new_ParameterParser_def)

lemma map_ordered_addParameter:
  "map_ordered (nameValueMap this) \<Longrightarrow>
   map_ordered (nameValueMap (snd (addParameter name defaultValue this)))"
  by (simp add: addParameter_def map_ordered_insert split: option.splits)

lemma map_ordered_readParameters:
  assumes "map_ordered (nameValueMap this)"
  shows "map_ordered (nameValueMap (fst (snd (readParameters filename fs this cout))))"
proof (cases "contents fs filename")
  case None
  with assms show ?thesis by (simp add: readParameters_def)
next
  case (Some input)
  obtain e m' cout' where
    r: "readParameters_loop filename (commentString this) 1 input (nameValueMap this) cout
          = (e, m', cout')"
    by (cases "readParameters_loop filename (commentString this) 1 input (nameValueMap this) cout")
  from keys_readParameters_loop [OF r] assms have "map_ordered m'"
    by (simp add: map_ordered_def)
  with Some r show ?thesis by (simp add: readParameters_def)
qed

subsection \<open>Serialisation by name\<close>

lemma writeParameterFile_loop_concat:
  "writeParameterFile_loop m out =
     out @ concat (map (\<lambda>(n, v). if v \<noteq> NO_DEFAULT_VALUE_STRING then n @ '' '' @ v @ endl else []) m)"
  by (induction m arbitrary: out) auto

lemma writeCurrentParameters_loop_concat:
  "writeCurrentParameters_loop m out =
     out @ concat (map (\<lambda>(n, v). if v \<noteq> NO_DEFAULT_VALUE_STRING then n @ '' = '' @ v @ endl
                                  else n @ '' <no value set>'' @ endl) m)"
  by (induction m arbitrary: out) auto

lemma map_find_ordered:
  "map_ordered m \<Longrightarrow> (n, v) \<in> set m \<Longrightarrow> map_find n m = Some v"
  by (induction m) (auto simp: map_ordered_def)

lemma ordered_names: "map_ordered m \<Longrightarrow> sorted_list_of_set (set (map fst m)) = map fst m"
  unfolding map_ordered_def
  by (simp add: strict_sorted_iff sorted_list_of_set.idem_if_sorted_distinct del: set_map)

lemma entries_by_name:
  assumes "map_ordered m"
  shows "map (\<lambda>(n, v). f n v) m =
         map (\<lambda>n. case map_find n m of Some v \<Rightarrow> f n v | None \<Rightarrow> g n)
           (sorted_list_of_set (set (map fst m)))"
proof -
  have "map (\<lambda>(n, v). f n v) m =
        map (\<lambda>n. case map_find n m of Some v \<Rightarrow> f n v | None \<Rightarrow> g n) (map fst m)"
    using map_find_ordered [OF assms] by auto
  then show ?thesis by (simp only: ordered_names [OF assms])
qed

lemma file_line_by_value:
  "(case map_find n (nameValueMap this) of
      Some v \<Rightarrow> if v \<noteq> NO_DEFAULT_VALUE_STRING then n @ sep @ v @ endl else alt n
    | None \<Rightarrow> alt n) =
   (case getParameterValue n this of Inr value \<Rightarrow> n @ sep @ value @ endl | Inl _ \<Rightarrow> alt n)"
  by (simp add: getParameterValue_def split: option.splits)

lemma writeParameterFile_loop_by_name:
  assumes "map_ordered (nameValueMap this)"
  shows "writeParameterFile_loop (nameValueMap this) h =
         h @ concat (map (\<lambda>name. case getParameterValue name this of
                              Inr value \<Rightarrow> name @ '' '' @ value @ endl
                            | Inl _ \<Rightarrow> [])
                 (sorted_list_of_set (set (map fst (nameValueMap this)))))"
  unfolding writeParameterFile_loop_concat
    entries_by_name [OF assms, where g = "\<lambda>n. []"]
    file_line_by_value [where alt = "\<lambda>n. []"]
  by (rule refl)

lemma writeCurrentParameters_loop_by_name:
  assumes "map_ordered (nameValueMap this)"
  shows "writeCurrentParameters_loop (nameValueMap this) h =
         h @ concat (map (\<lambda>name. case getParameterValue name this of
                              Inr value \<Rightarrow> name @ '' = '' @ value @ endl
                            | Inl _ \<Rightarrow> name @ '' <no value set>'' @ endl)
                 (sorted_list_of_set (set (map fst (nameValueMap this)))))"
  unfolding writeCurrentParameters_loop_concat
    entries_by_name [OF assms, where g = "\<lambda>n. n @ '' <no value set>'' @ endl"]
    file_line_by_value [where alt = "\<lambda>n. n @ '' <no value set>'' @ endl"]
  by (rule refl)


subsection \<open>\<^verbatim>\<open>trim\<close> on strings that hold a character other than a space\<close>

lemma erase_keeps:
  assumes "c \<in> set str" and "i < length str" and "c \<noteq> str ! i"
  shows "c \<in> set (erase str i 1)"
proof -
  have "set str = set (take i str @ str ! i # drop (Suc i) str)"
    using assms(2) by (simp only: id_take_nth_drop [symmetric])
  with assms(1,3) show ?thesis by (auto simp: erase_def)
qed

lemma length_erase: "i < length str \<Longrightarrow> length (erase str i 1) = length str - 1"
  by (auto simp: erase_def)

lemma trim_leading_keeps:
  "c \<in> set str \<Longrightarrow> c \<noteq> CHR '' '' \<Longrightarrow> c \<in> set (trim_leading i str)"
proof (induction i str rule: trim_leading.induct)
  case (1 i str)
  show ?case
  proof (cases "unat i < length str \<and> str_at str (unat i) = Some CHR '' ''")
    case True
    then have "str ! unat i = CHR '' ''" by (auto simp: str_at_def)
    with "1.prems" True have "c \<in> set (erase str (unat i) 1)"
      by (intro erase_keeps) auto
    with "1.IH" True "1.prems" show ?thesis
      by (subst trim_leading.simps) simp
  next
    case False
    with "1.prems" show ?thesis by (subst trim_leading.simps) auto
  qed
qed

lemma word_of_nat_pred: "0 < n \<Longrightarrow> (word_of_nat (n - 1) :: 32 word) = word_of_nat n - 1"
  by (cases n) simp_all

lemma unat_length_minus_one:
  assumes "0 < n"
  shows "unat (word_of_nat n - 1 :: 32 word) < n"
proof -
  have "(word_of_nat n - 1 :: 32 word) = word_of_nat (n - 1)"
    using assms by (simp only: word_of_nat_pred)
  then have "unat (word_of_nat n - 1 :: 32 word) = (n - 1) mod 2 ^ 32"
    by (simp add: unat_of_nat)
  also have "\<dots> \<le> n - 1" by (rule mod_less_eq_dividend)
  finally show ?thesis using assms by simp
qed

lemma trim_trailing_nonempty:
  "\<exists>c \<in> set str. c \<noteq> CHR '' '' \<Longrightarrow>
   \<exists>r. trim_trailing (word_of_nat (length str) - 1) str = Inr r \<and> r \<noteq> []"
proof (induction str rule: length_induct)
  case (1 str)
  from "1.prems" obtain c where c: "c \<in> set str" "c \<noteq> CHR '' ''" by blast
  then have pos: "0 < length str" by (cases str) auto
  let ?i = "word_of_nat (length str) - 1 :: 32 word"
  have i: "unat ?i < length str" using pos by (rule unat_length_minus_one)
  then have at: "str_at str (unat ?i) = Some (str ! unat ?i)" by (simp add: str_at_def)
  show ?case
  proof (cases "str ! unat ?i = CHR '' ''")
    case False
    with at c show ?thesis by (subst trim_trailing.simps) auto
  next
    case True
    let ?str' = "erase str (unat ?i) 1"
    have len: "length ?str' = length str - 1" using i by (rule length_erase)
    have "c \<in> set ?str'" using c i True by (intro erase_keeps) auto
    with c have ex: "\<exists>c \<in> set ?str'. c \<noteq> CHR '' ''" by blast
    have "(word_of_nat (length ?str') :: 32 word) = word_of_nat (length str - 1)"
      by (simp only: len)
    also have "\<dots> = word_of_nat (length str) - 1"
      using pos by (rule word_of_nat_pred)
    finally have idx: "?i - 1 = word_of_nat (length ?str') - 1" by simp
    have short: "length ?str' < length str" using len pos by simp
    from "1.IH" [rule_format, OF short ex]
    have rest: "\<exists>r. trim_trailing (word_of_nat (length ?str') - 1) ?str' = Inr r \<and> r \<noteq> []" .
    have step: "trim_trailing ?i str = trim_trailing (?i - 1) ?str'"
      by (subst trim_trailing.simps) (simp add: at True)
    show ?thesis unfolding step idx by (rule rest)
  qed
qed

lemma trim_has_value:
  assumes "\<exists>c \<in> set str. c \<noteq> CHR '' ''"
  shows "\<exists>r. trim str = Inr r \<and> r \<noteq> []"
proof -
  from assms obtain c where c: "c \<in> set str" "c \<noteq> CHR '' ''" by blast
  from trim_leading_keeps [OF c, of 0] c(2)
  have "\<exists>c \<in> set (trim_leading 0 str). c \<noteq> CHR '' ''" by blast
  then show ?thesis unfolding trim_def Let_def by (rule trim_trailing_nonempty)
qed

lemma trim_name:
  assumes "name \<noteq> []" and "CHR '' '' \<notin> set name"
  shows "trim name = Inr name"
proof -
  have "name ! 0 \<in> set name" using assms(1) by simp
  with assms(2) have "name ! 0 \<noteq> CHR '' ''" by metis
  then have lead: "trim_leading 0 name = name"
    by (subst trim_leading.simps) (simp add: str_at_def)
  let ?i = "word_of_nat (length name) - 1 :: 32 word"
  have i: "unat ?i < length name" using assms(1) by (intro unat_length_minus_one) simp
  then have "name ! unat ?i \<in> set name" by simp
  with assms(2) have "name ! unat ?i \<noteq> CHR '' ''" by metis
  with i have "trim_trailing ?i name = Inr name"
    by (subst trim_trailing.simps) (simp add: str_at_def)
  with lead show ?thesis by (simp add: trim_def)
qed

subsection \<open>One line of the file\<close>

lemma find_char_first:
  "c \<notin> set xs \<Longrightarrow> find_char c (xs @ c # ys) = Some (length xs)"
  by (induction xs) auto

lemma parse_line_name_value:
  assumes "substr line 0 (find_str cs line) = name @ CHR '' '' # rawValue"
    and "name \<noteq> []" and "CHR '' '' \<notin> set name"
    and "\<exists>c \<in> set rawValue. c \<noteq> CHR '' ''"
  shows "\<exists>value. parse_line filename cs lineCount line = Inr (Some (name, value)) \<and> value \<noteq> []"
proof -
  from trim_has_value [OF assms(4)] obtain "value" where
    v: "trim rawValue = Inr value" "value \<noteq> []" by blast
  have "parse_line filename cs lineCount line = Inr (Some (name, value))"
    unfolding parse_line_def Let_def assms(1)
    using v by (simp add: find_char_first [OF assms(3)] substr_def trim_name [OF assms(2,3)])
  with v show ?thesis by blast
qed

lemma getline_line:
  assumes "CHR 0x0A \<notin> set line"
  shows "getline (line @ endl @ rest) = Some (line, rest)"
proof -
  have "takeWhile (\<lambda>c. c \<noteq> CHR 0x0A) (line @ CHR 0x0A # rest) = line"
    using assms by (induction line) auto
  then show ?thesis by (simp add: getline_def endl_def)
qed

lemma readParameters_loop_end: "readParameters_loop filename cs lineCount [] m cout = (None, m, cout)"
  by (simp add: readParameters_loop.simps getline_def)

lemma unknown_line_step:
  assumes "CHR 0x0A \<notin> set line"
    and "substr line 0 (find_str cs line) = name @ CHR '' '' # rawValue"
    and "name \<noteq> []" and "CHR '' '' \<notin> set name"
    and "\<exists>c \<in> set rawValue. c \<noteq> CHR '' ''"
    and "map_find name m = None"
  shows "readParameters_loop filename cs lineCount (line @ endl @ rest) m cout =
         readParameters_loop filename cs (lineCount + 1) rest m
           (cout @ unknown_parameter_message name)"
proof -
  from parse_line_name_value [OF assms(2-5)] obtain "value" where
    "parse_line filename cs lineCount line = Inr (Some (name, value))" by blast
  then show ?thesis
    using getline_line [OF assms(1)] assms(6)
    by (subst readParameters_loop.simps) simp
qed

text \<open>A line whose content has no space: the exception carries the counter of that line,
  and the map and the output are those reached by the lines before it.\<close>

lemma find_char_absent: "c \<notin> set xs \<Longrightarrow> find_char c xs = None"
  by (induction xs) auto

lemma parse_line_without_space:
  assumes "substr line 0 (find_str cs line) = content"
    and "content \<noteq> []" and "CHR '' '' \<notin> set content"
  shows "parse_line filename cs lineCount line = Inl (ParameterWithoutValue lineCount filename)"
  unfolding parse_line_def Let_def assms(1)
  using assms(2) by (simp add: find_char_absent [OF assms(3)])

lemma line_without_space_step:
  assumes "CHR 0x0A \<notin> set line"
    and "substr line 0 (find_str cs line) = content"
    and "content \<noteq> []" and "CHR '' '' \<notin> set content"
  shows "readParameters_loop filename cs lineCount (line @ endl @ rest) m cout =
           (Some (ParameterWithoutValue lineCount filename), m, cout)"
  using getline_line [OF assms(1)] parse_line_without_space [OF assms(2-4)]
  by (subst readParameters_loop.simps) simp

text \<open>A comment line, an empty line, an assignment and a name without value: the exception
  names line 4, the assignment of line 3 stays, line 5 is not read.\<close>

lemma malformed_fourth_line_example:
  "readParameters ''cfg''
     (single_file ''cfg'' ''# settings\<newline>\<newline>a 2\<newline>b\<newline>a 3\<newline>'')
     roundtrip_writer []
   = (Some (ParameterWithoutValue 4 ''cfg''),
      roundtrip_writer\<lparr>nameValueMap := [(''a'', ''2''), (''b'', NO_DEFAULT_VALUE_STRING)]\<rparr>,
      [])"
  by (simp add: run_defs single_file_def roundtrip_writer_def)

lemma addParameter_registers:
  "map_find name (nameValueMap (snd (addParameter name d this))) \<noteq> None"
  by (cases "map_find name (nameValueMap this)")
     (simp_all add: addParameter_def map_find_insert_same)

subsection \<open>\<^verbatim>\<open>trim\<close> never returns the empty string\<close>

text \<open>The second loop of \<^verbatim>\<open>trim\<close> stops normally only at a character other than a space,
  so whenever the string runs empty the next read is out of bounds: the test
  \<^verbatim>\<open>value == ""\<close> that follows \<^verbatim>\<open>trim(value)\<close> in \<^verbatim>\<open>readParameters\<close> is never reached with
  an empty value, and the exception "Found identifier without value" is never thrown.\<close>

lemma trim_trailing_never_empty:
  "trim_trailing (word_of_nat (length str) - 1) str \<noteq> Inr []"
proof (induction str rule: length_induct)
  case (1 str)
  let ?i = "word_of_nat (length str) - 1 :: 32 word"
  show ?case
  proof (cases "str_at str (unat ?i)")
    case None
    then show ?thesis by (subst trim_trailing.simps) simp
  next
    case (Some c)
    show ?thesis
    proof (cases "c = CHR '' ''")
      case False
      have "str \<noteq> []"
      proof
        assume "str = []"
        with Some show False by (simp add: str_at_def unat_minus_one_32)
      qed
      with Some False show ?thesis by (subst trim_trailing.simps) simp
    next
      case True
      with Some have i: "unat ?i < length str"
        by (auto simp: str_at_def split: if_splits)
      then have pos: "0 < length str" by arith
      let ?str' = "erase str (unat ?i) 1"
      have len: "length ?str' = length str - 1" using i by (rule length_erase)
      have "(word_of_nat (length ?str') :: 32 word) = word_of_nat (length str - 1)"
        by (simp only: len)
      also have "\<dots> = word_of_nat (length str) - 1"
        using pos by (rule word_of_nat_pred)
      finally have idx: "?i - 1 = word_of_nat (length ?str') - 1" by simp
      have short: "length ?str' < length str" using len pos by simp
      from "1.IH" [rule_format, OF short]
      have rest: "trim_trailing (word_of_nat (length ?str') - 1) ?str' \<noteq> Inr []" .
      have step: "trim_trailing ?i str = trim_trailing (?i - 1) ?str'"
        by (subst trim_trailing.simps) (simp add: Some True)
      show ?thesis unfolding step idx by (rule rest)
    qed
  qed
qed

lemma trim_trailing_error:
  "trim_trailing i str = Inl ub \<Longrightarrow> \<exists>pos. ub = OutOfBoundsRead pos"
proof (induction i str rule: trim_trailing.induct)
  case (1 i str)
  show ?case
  proof (cases "str_at str (unat i)")
    case None
    have "trim_trailing i str = Inl (OutOfBoundsRead (unat i))"
      by (subst trim_trailing.simps) (simp add: None)
    with "1.prems" show ?thesis by auto
  next
    case (Some c)
    show ?thesis
    proof (cases "c = CHR '' ''")
      case True
      have "trim_trailing i str = trim_trailing (i - 1) (erase str (unat i) 1)"
        by (subst trim_trailing.simps) (simp add: Some True)
      with "1.prems" have "trim_trailing (i - 1) (erase str (unat i) 1) = Inl ub" by simp
      with "1.IH" Some True show ?thesis by simp
    next
      case False
      have "trim_trailing i str = Inr str"
        by (subst trim_trailing.simps) (simp add: Some False)
      with "1.prems" show ?thesis by simp
    qed
  qed
qed

lemma trim_never_empty: "trim str \<noteq> Inr []"
  unfolding trim_def Let_def by (rule trim_trailing_never_empty)

lemma parse_line_never_identifier_without_value:
  "parse_line filename cs lineCount line \<noteq> Inl (IdentifierWithoutValue n f)"
proof -
  have ub: "ub \<noteq> IdentifierWithoutValue n f" if "trim s = Inl ub" for s ub
  proof -
    from that obtain pos where "ub = OutOfBoundsRead pos"
      unfolding trim_def Let_def by (blast dest: trim_trailing_error)
    then show ?thesis by simp
  qed
  show ?thesis
    unfolding parse_line_def Let_def
    using trim_never_empty ub
    by (auto split: option.splits sum.splits)
qed

lemma readParameters_loop_never_identifier_without_value:
  "fst (readParameters_loop filename cs lineCount input m cout)
     \<noteq> Some (IdentifierWithoutValue n f)"
proof (induction filename cs lineCount input m cout rule: readParameters_loop.induct)
  case (1 filename cs lineCount input m cout)
  show ?case
  proof (cases "getline input")
    case None
    then have "readParameters_loop filename cs lineCount input m cout = (None, m, cout)"
      by (subst readParameters_loop.simps) simp
    then show ?thesis by simp
  next
    case (Some lr)
    obtain line rest where lr: "lr = (line, rest)" by (cases lr)
    note gl = Some [unfolded lr]
    show ?thesis
    proof (cases "parse_line filename cs lineCount line")
      case (Inl err)
      with gl have "readParameters_loop filename cs lineCount input m cout = (Some err, m, cout)"
        by (subst readParameters_loop.simps) simp
      moreover have "err \<noteq> IdentifierWithoutValue n f"
        using Inl parse_line_never_identifier_without_value [of filename cs lineCount line n f]
        by simp
      ultimately show ?thesis by simp
    next
      case (Inr r)
      show ?thesis
      proof (cases r)
        case None
        with gl Inr have "readParameters_loop filename cs lineCount input m cout =
            readParameters_loop filename cs (lineCount + 1) rest m cout"
          by (subst readParameters_loop.simps) simp
        with "1.IH"(1) [OF gl refl Inr None] show ?thesis by simp
      next
        case (Some nv)
        obtain name "value" where nv: "nv = (name, value)" by (cases nv)
        show ?thesis
        proof (cases "map_find name m")
          case None
          with gl Inr Some nv have "readParameters_loop filename cs lineCount input m cout =
              readParameters_loop filename cs (lineCount + 1) rest m
                (cout @ unknown_parameter_message name)"
            by (subst readParameters_loop.simps) simp
          with "1.IH"(2) [OF gl refl Inr Some nv [symmetric] None] show ?thesis by simp
        next
          case found: (Some v0)
          with gl Inr Some nv have "readParameters_loop filename cs lineCount input m cout =
              readParameters_loop filename cs (lineCount + 1) rest (map_assign name value m) cout"
            by (subst readParameters_loop.simps) simp
          with "1.IH"(3) [OF gl refl Inr Some nv [symmetric] found] show ?thesis by simp
        qed
      qed
    qed
  qed
qed

lemma readParameters_never_identifier_without_value:
  "fst (readParameters filename fs this cout) \<noteq> Some (IdentifierWithoutValue n f)"
proof (cases "contents fs filename")
  case None
  then show ?thesis by (simp add: readParameters_def)
next
  case (Some input)
  with readParameters_loop_never_identifier_without_value
         [of filename "commentString this" 1 input "nameValueMap this" cout n f]
  show ?thesis by (auto simp: readParameters_def split: prod.splits)
qed

subsection \<open>The writing store of the round trip\<close>

lemma roundtrip_writer_entries:
  "nameValueMap roundtrip_writer = [(''a'', ''1''), (''b'', NO_DEFAULT_VALUE_STRING)]"
  by (simp add: roundtrip_writer_def new_ParameterParser_def addParameter_def)

lemma roundtrip_writer_ordered: "map_ordered (nameValueMap roundtrip_writer)"
  by (simp add: roundtrip_writer_entries map_ordered_def)

lemma roundtrip_writer_names:
  "sorted_list_of_set (set (map fst (nameValueMap roundtrip_writer))) = [''a'', ''b'']"
  using ordered_names [OF roundtrip_writer_ordered]
  by (simp only: roundtrip_writer_entries list.map fst_conv)

section \<open>The claims\<close>

text \<open>
  C1 (fails on the code). The claim: a value of \<open>k\<close> spaces, a space-free \<open>s\<close> and \<open>k\<close>
  spaces trims to exactly \<open>s\<close>. The first loop of \<^verbatim>\<open>trim\<close> increments \<open>i\<close> after each
  \<^verbatim>\<open>erase(i, 1)\<close>, so it steps over every second space: for \<open>k = 2\<close> and \<open>s = a\<close> the
  result keeps one leading space.
\<close>

theorem trim_two_spaces_keeps_one: "trim ''  a  '' = Inr '' a''"
  by (simp add: run_defs)

text \<open>
  C2, as stated. The claim: after \<^verbatim>\<open>addParameter("a", "1"); addParameter("b")\<close> and
  \<^verbatim>\<open>writeParameterFile(F)\<close> on one store, a fresh store with
  \<^verbatim>\<open>addParameter("a"); addParameter("b", "z")\<close> and \<^verbatim>\<open>readParameters(F)\<close> has
  \<^verbatim>\<open>getParameterValue("a") == "1"\<close>, and \<^verbatim>\<open>getParameterValue("b")\<close> throws for want of a
  value. On a file system where \<open>F\<close> can be written, the lookup of \<open>b\<close> does not throw
  that exception.
\<close>

theorem roundtrip_get_b_does_not_raise:
  "getParameterValue ''b''
     (fst (snd (readParameters ''F''
                  (snd (writeParameterFile ''F'' roundtrip_writer blank_filesystem))
                  roundtrip_reader [])))
   \<noteq> Inl (NoValueForParameter ''b'')"
  by (simp add: run_defs roundtrip_writer_def roundtrip_reader_def blank_filesystem_def)

text \<open>
  C2 (amended). The written file holds the header and the line \<^verbatim>\<open>a 1\<close>, and no line for
  \<open>b\<close>. A name that the file does not mention keeps the value it had, and the reading
  store registered \<open>b\<close> with the default \<^verbatim>\<open>"z"\<close>: after the round trip
  \<^verbatim>\<open>getParameterValue("a")\<close> is \<^verbatim>\<open>"1"\<close> and \<^verbatim>\<open>getParameterValue("b")\<close> is \<^verbatim>\<open>"z"\<close>, for every
  path that can be opened for writing.
\<close>

theorem roundtrip_keeps_reader_default:
  assumes "writable fs F"
  shows "\<exists>fs' this' cout'.
           writeParameterFile F roundtrip_writer fs = (None, fs') \<and>
           contents fs' F =
             Some ''# Default config file generated by ParameterParser\<newline>a 1\<newline>'' \<and>
           readParameters F fs' roundtrip_reader cout = (None, this', cout') \<and>
           getParameterValue ''a'' this' = Inr ''1'' \<and>
           getParameterValue ''b'' this' = Inr ''z''"
  using assms
  by (simp add: run_defs roundtrip_writer_def roundtrip_reader_def)

theorem roundtrip_keeps_reader_default_witness:
  "writable blank_filesystem ''F'' \<and>
   (\<exists>fs' this' cout'.
      writeParameterFile ''F'' roundtrip_writer blank_filesystem = (None, fs') \<and>
      contents fs' ''F'' =
        Some ''# Default config file generated by ParameterParser\<newline>a 1\<newline>'' \<and>
      readParameters ''F'' fs' roundtrip_reader [] = (None, this', cout') \<and>
      getParameterValue ''a'' this' = Inr ''1'' \<and>
      getParameterValue ''b'' this' = Inr ''z'')"
proof -
  have w: "writable blank_filesystem ''F''" by (simp add: blank_filesystem_def)
  show ?thesis
    using w roundtrip_keeps_reader_default [OF w, of "[]"] by simp
qed

text \<open>
  C3 (fails on the code). The claim: \<^verbatim>\<open>trim\<close> reads only positions inside the string, for
  the empty string too. On the empty string the second loop starts at
  \<open>i = 0 - 1 = 4294967295\<close>; the test \<^verbatim>\<open>i >= 0\<close> holds for every \<^verbatim>\<open>unsigned\<close> value, and
  \<^verbatim>\<open>str[4294967295]\<close> is read from a string of size 0.
\<close>

theorem trim_empty_reads_out_of_bounds: "trim [] = Inl (OutOfBoundsRead 4294967295)"
  by (simp add: run_defs unat_minus_one_32)

text \<open>
  C4, as stated. The claim: \<^verbatim>\<open>addParameter(name, default)\<close> followed by
  \<^verbatim>\<open>getParameterValue(name)\<close> returns the default when a non-empty default was given.
  A slot without a value is stored as the string \<^verbatim>\<open>_#N/A#_\<close>, so a default equal to that
  string is not returned: the lookup throws as for a slot without a value.
\<close>

theorem register_sentinel_default_raises:
  "fst (addParameter ''p'' ''_#N/A#_'' new_ParameterParser) = None \<and>
   getParameterValue ''p'' (snd (addParameter ''p'' ''_#N/A#_'' new_ParameterParser))
     = Inl (NoValueForParameter ''p'')"
  by (simp add: run_defs)

text \<open>
  C4 (amended). For a name that is not yet in the map and any default, \<^verbatim>\<open>addParameter\<close>
  throws nothing, and \<^verbatim>\<open>getParameterValue\<close> right after it returns the default when the
  default is neither empty nor \<^verbatim>\<open>_#N/A#_\<close>, and throws the no-value exception when the
  default is empty or \<^verbatim>\<open>_#N/A#_\<close>.
\<close>

theorem register_then_get:
  assumes "map_find name (nameValueMap this) = None"
  shows "fst (addParameter name defaultValue this) = None \<and>
         getParameterValue name (snd (addParameter name defaultValue this)) =
           (if defaultValue = [] \<or> defaultValue = NO_DEFAULT_VALUE_STRING
            then Inl (NoValueForParameter name)
            else Inr defaultValue)"
  using assms
  by (simp add: addParameter_def getParameterValue_def map_find_insert_same)

theorem register_then_get_witness:
  "map_find ''p'' (nameValueMap new_ParameterParser) = None \<and>
   fst (addParameter ''p'' ''7'' new_ParameterParser) = None \<and>
   getParameterValue ''p'' (snd (addParameter ''p'' ''7'' new_ParameterParser)) = Inr ''7'' \<and>
   getParameterValue ''p'' (snd (addParameter ''p'' [] new_ParameterParser))
     = Inl (NoValueForParameter ''p'')"
proof -
  have h: "map_find ''p'' (nameValueMap new_ParameterParser) = None"
    by (simp add: new_ParameterParser_def)
  show ?thesis
    using h register_then_get [OF h, of "''7''"] register_then_get [OF h, of "[]"]
    by (simp add: NO_DEFAULT_VALUE_STRING_def)
qed

text \<open>
  C5 (fails on the code). The claim: a line whose value trims to empty makes
  \<^verbatim>\<open>readParameters\<close> throw the malformed-line exception with the line number and the file
  name. For the file \<^verbatim>\<open>x\<close> followed by three spaces, the value passed to \<^verbatim>\<open>trim\<close> is two
  spaces; the loops erase both, the counter wraps to \<open>4294967295\<close> and the next read is
  out of bounds, before the test \<^verbatim>\<open>value == ""\<close> is reached.
\<close>

theorem value_of_spaces_reads_out_of_bounds:
  "readParameters ''cfg'' (single_file ''cfg'' ''x   \<newline>'')
     (snd (addParameter ''x'' [] new_ParameterParser)) []
   = (Some (OutOfBoundsRead 4294967295), snd (addParameter ''x'' [] new_ParameterParser), [])"
  by (simp add: run_defs single_file_def unat_minus_one_32)

text \<open>
  C6, as stated. The claim: \<^verbatim>\<open>writeCurrentParameters\<close> writes the header and one line per
  parameter, \<^verbatim>\<open>name = value\<close> for a parameter holding a value and \<^verbatim>\<open>name <no value set>\<close>
  exactly for the slots never set by a parse and never given a default at registration.
  A slot registered with the default \<^verbatim>\<open>_#N/A#_\<close> was given a default and is written as
  \<^verbatim>\<open><no value set>\<close>.
\<close>

theorem dump_sentinel_default_as_unset:
  "writeCurrentParameters (snd (addParameter ''p'' ''_#N/A#_'' new_ParameterParser)) []
   = ''Current parameters:\<newline>p <no value set>\<newline>''"
  by (simp add: run_defs)

text \<open>
  C6 (amended). What decides the line is whether \<^verbatim>\<open>getParameterValue\<close> returns a value:
  the output is the header \<^verbatim>\<open>Current parameters:\<close>, then for every name of the map, in
  increasing order, the line \<^verbatim>\<open>name = value\<close> when \<^verbatim>\<open>getParameterValue(name)\<close> returns
  \<open>value\<close> and the line \<^verbatim>\<open>name <no value set>\<close> when it throws, that is when the slot
  holds \<^verbatim>\<open>_#N/A#_\<close>.
\<close>

theorem dump_lines:
  assumes "map_ordered (nameValueMap this)"
  shows "writeCurrentParameters this stream =
       (stream @ ''Current parameters:'' @ endl) @
       concat (map (\<lambda>name. case getParameterValue name this of
                              Inr value \<Rightarrow> name @ '' = '' @ value @ endl
                            | Inl _ \<Rightarrow> name @ '' <no value set>'' @ endl)
                 (sorted_list_of_set (set (map fst (nameValueMap this)))))"
  unfolding writeCurrentParameters_def writeCurrentParameters_loop_by_name [OF assms]
  by (rule refl)

theorem dump_lines_witness:
  "map_ordered (nameValueMap roundtrip_writer) \<and>
   writeCurrentParameters roundtrip_writer [] =
     ''Current parameters:\<newline>a = 1\<newline>b <no value set>\<newline>''"
proof -
  have "writeCurrentParameters roundtrip_writer [] =
     ''Current parameters:\<newline>a = 1\<newline>b <no value set>\<newline>''"
    unfolding dump_lines [OF roundtrip_writer_ordered] roundtrip_writer_names
    by (simp add: getParameterValue_def roundtrip_writer_entries endl_def
          NO_DEFAULT_VALUE_STRING_def)
  with roundtrip_writer_ordered show ?thesis by simp
qed

text \<open>
  C7. Registering a name that the map already holds throws the already-exists exception,
  whatever the default given and whatever the value stored, and leaves the object as it
  was. In particular the second of two registrations of one name always fails.
\<close>

theorem register_existing_name_fails:
  "(map_find name (nameValueMap this) \<noteq> None \<longrightarrow>
      addParameter name defaultValue this = (Some (ParameterExists name), this)) \<and>
   addParameter name d2 (snd (addParameter name d1 this)) =
     (Some (ParameterExists name), snd (addParameter name d1 this))"
proof -
  have fails: "addParameter name d that = (Some (ParameterExists name), that)"
    if "map_find name (nameValueMap that) \<noteq> None" for d that
    using that by (auto simp: addParameter_def)
  have "map_find name (nameValueMap (snd (addParameter name d1 this))) \<noteq> None"
    by (rule addParameter_registers)
  then have "addParameter name d2 (snd (addParameter name d1 this)) =
     (Some (ParameterExists name), snd (addParameter name d1 this))"
    by (rule fails)
  with fails show ?thesis by blast
qed

theorem register_existing_name_fails_witness:
  "map_find ''a'' (nameValueMap roundtrip_writer) \<noteq> None \<and>
   addParameter ''a'' ''2'' roundtrip_writer = (Some (ParameterExists ''a''), roundtrip_writer)"
proof -
  have h: "map_find ''a'' (nameValueMap roundtrip_writer) \<noteq> None"
    by (simp add: roundtrip_writer_def run_defs)
  from register_existing_name_fails [of "''a''" roundtrip_writer "''2''"] h
  show ?thesis by blast
qed

text \<open>
  C8, as stated. The claim: \<^verbatim>\<open>writeParameterFile\<close> writes the header line and then one line
  \<^verbatim>\<open>name value\<close> for every parameter currently holding a value, default or loaded, leaving
  out the unset ones, in lexicographic order of the names. A parameter registered with the
  default \<^verbatim>\<open>_#N/A#_\<close> holds a default and gets no line: the file is the header alone.
\<close>

theorem default_file_omits_sentinel_default:
  "fst (writeParameterFile ''F'' (snd (addParameter ''p'' ''_#N/A#_'' new_ParameterParser))
          blank_filesystem) = None \<and>
   contents (snd (writeParameterFile ''F''
                    (snd (addParameter ''p'' ''_#N/A#_'' new_ParameterParser))
                    blank_filesystem)) ''F''
     = Some ''# Default config file generated by ParameterParser\<newline>''"
  by (simp add: run_defs blank_filesystem_def)

text \<open>
  C8 (amended). \<^verbatim>\<open>writeParameterFile\<close> on a path that can be opened replaces the file by:
  the comment string followed by \<^verbatim>\<open> Default config file generated by ParameterParser\<close> and
  a newline, then, for every name of the map in increasing (lexicographic) order, the line
  \<^verbatim>\<open>name value\<close> when \<^verbatim>\<open>getParameterValue(name)\<close> returns \<open>value\<close>, that is when the slot
  holds a string other than \<^verbatim>\<open>_#N/A#_\<close>, and nothing for the other names.
\<close>

theorem default_file_lines:
  assumes "map_ordered (nameValueMap this)" and "writable fs filename"
  shows "writeParameterFile filename this fs =
    (None, fs\<lparr>contents := (contents fs)(filename \<mapsto>
       (commentString this @ '' Default config file generated by ParameterParser\<newline>'') @
       concat (map (\<lambda>name. case getParameterValue name this of
                              Inr value \<Rightarrow> name @ '' '' @ value @ ''\<newline>''
                            | Inl _ \<Rightarrow> [])
                 (sorted_list_of_set (set (map fst (nameValueMap this))))))\<rparr>)"
  unfolding writeParameterFile_def writeParameterFile_loop_by_name [OF assms(1)] endl_def
  using assms(2) by simp

theorem default_file_lines_witness:
  "map_ordered (nameValueMap roundtrip_writer) \<and> writable blank_filesystem ''F'' \<and>
   writeParameterFile ''F'' roundtrip_writer blank_filesystem =
     (None, blank_filesystem\<lparr>contents := (contents blank_filesystem)(''F'' \<mapsto>
        ''# Default config file generated by ParameterParser\<newline>a 1\<newline>'')\<rparr>)"
proof -
  have w: "writable blank_filesystem ''F''" by (simp add: blank_filesystem_def)
  have "writeParameterFile ''F'' roundtrip_writer blank_filesystem =
     (None, blank_filesystem\<lparr>contents := (contents blank_filesystem)(''F'' \<mapsto>
        ''# Default config file generated by ParameterParser\<newline>a 1\<newline>'')\<rparr>)"
    unfolding default_file_lines [OF roundtrip_writer_ordered w] roundtrip_writer_names
    by (simp add: getParameterValue_def roundtrip_writer_entries endl_def
          NO_DEFAULT_VALUE_STRING_def roundtrip_writer_def addParameter_def
          new_ParameterParser_def DEFAULT_COMMENT_STRING_def)
  with roundtrip_writer_ordered w show ?thesis by simp
qed

text \<open>
  C9. A file of one line that has a non-empty name without spaces, a space, and a raw value
  holding at least one character other than a space (all before any comment), where the
  name is not in the map: \<^verbatim>\<open>readParameters\<close> throws nothing, leaves the object as it was,
  and appends to \<^verbatim>\<open>std::cout\<close> exactly one line, the text
  \<^verbatim>\<open>Unknown parameter identifier "name" will be ignored!\<close> for that name.
\<close>

theorem unknown_name_one_warning:
  assumes "CHR 0x0A \<notin> set line"
    and "substr line 0 (find_str (commentString this) line) = name @ CHR '' '' # rawValue"
    and "name \<noteq> []" and "CHR '' '' \<notin> set name"
    and "\<exists>c \<in> set rawValue. c \<noteq> CHR '' ''"
    and "map_find name (nameValueMap this) = None"
    and "contents fs filename = Some (line @ [CHR 0x0A])"
  shows "readParameters filename fs this cout =
           (None, this,
            cout @ ''Unknown parameter identifier '' @ [CHR 0x22] @ name @ [CHR 0x22]
              @ '' will be ignored!'' @ [CHR 0x0A])"
proof -
  have "readParameters_loop filename (commentString this) 1 (line @ [CHR 0x0A])
          (nameValueMap this) cout =
        (None, nameValueMap this, cout @ unknown_parameter_message name)"
    using unknown_line_step [OF assms(1-6), where rest = "[]" and lineCount = 1]
    by (simp add: readParameters_loop_end endl_def)
  with assms(7) show ?thesis
    by (simp add: readParameters_def unknown_parameter_message_def endl_def)
qed

theorem unknown_name_one_warning_witness:
  "CHR 0x0A \<notin> set ''unknownname 5'' \<and>
   substr ''unknownname 5'' 0 (find_str (commentString roundtrip_writer) ''unknownname 5'')
     = ''unknownname'' @ CHR '' '' # ''5'' \<and>
   ''unknownname'' \<noteq> [] \<and> CHR '' '' \<notin> set ''unknownname'' \<and>
   (\<exists>c \<in> set ''5''. c \<noteq> CHR '' '') \<and>
   map_find ''unknownname'' (nameValueMap roundtrip_writer) = None \<and>
   contents (single_file ''cfg'' ''unknownname 5\<newline>'') ''cfg''
     = Some (''unknownname 5'' @ [CHR 0x0A]) \<and>
   readParameters ''cfg'' (single_file ''cfg'' ''unknownname 5\<newline>'') roundtrip_writer []
     = (None, roundtrip_writer,
        ''Unknown parameter identifier '' @ [CHR 0x22] @ ''unknownname'' @ [CHR 0x22]
          @ '' will be ignored!\<newline>'')"
proof -
  have a: "CHR 0x0A \<notin> set ''unknownname 5''" by simp
  have b: "substr ''unknownname 5'' 0 (find_str (commentString roundtrip_writer) ''unknownname 5'')
     = ''unknownname'' @ CHR '' '' # ''5''"
    by (simp add: substr_def roundtrip_writer_def addParameter_def new_ParameterParser_def
          DEFAULT_COMMENT_STRING_def)
  have c: "''unknownname'' \<noteq> []" by simp
  have d: "CHR '' '' \<notin> set ''unknownname''" by simp
  have e: "\<exists>c \<in> set ''5''. c \<noteq> CHR '' ''" by simp
  have f: "map_find ''unknownname'' (nameValueMap roundtrip_writer) = None"
    by (simp add: roundtrip_writer_entries)
  have g: "contents (single_file ''cfg'' ''unknownname 5\<newline>'') ''cfg''
     = Some (''unknownname 5'' @ [CHR 0x0A])" by (simp add: single_file_def)
  from unknown_name_one_warning [OF a b c d e f g, of "[]"] a b c d e f g
  show ?thesis by simp
qed

text \<open>
  C10. With the default comment string, reading a file that consists of the line
  \<^verbatim>\<open>x 5 # comment\<close> into a store that holds \<open>x\<close> throws nothing, assigns \<^verbatim>\<open>5\<close> to \<open>x\<close>
  and nothing else, and \<^verbatim>\<open>getParameterValue("x")\<close> is \<^verbatim>\<open>"5"\<close> afterwards.
\<close>

theorem comment_line_sets_x:
  assumes "contents fs filename = Some ''x 5 # comment\<newline>''"
    and "commentString this = DEFAULT_COMMENT_STRING"
    and "map_find ''x'' (nameValueMap this) \<noteq> None"
  shows "readParameters filename fs this cout =
           (None, this\<lparr>nameValueMap := map_assign ''x'' ''5'' (nameValueMap this)\<rparr>, cout) \<and>
         getParameterValue ''x'' (fst (snd (readParameters filename fs this cout))) = Inr ''5''"
proof -
  from assms(3) obtain v0 where "map_find ''x'' (nameValueMap this) = Some v0" by blast
  with assms(1,2) show ?thesis
    by (simp add: run_defs map_find_assign)
qed

theorem comment_line_sets_x_witness:
  "contents (single_file ''cfg'' ''x 5 # comment\<newline>'') ''cfg'' = Some ''x 5 # comment\<newline>'' \<and>
   commentString (snd (addParameter ''x'' [] new_ParameterParser)) = DEFAULT_COMMENT_STRING \<and>
   map_find ''x'' (nameValueMap (snd (addParameter ''x'' [] new_ParameterParser))) \<noteq> None \<and>
   getParameterValue ''x''
     (fst (snd (readParameters ''cfg'' (single_file ''cfg'' ''x 5 # comment\<newline>'')
                  (snd (addParameter ''x'' [] new_ParameterParser)) []))) = Inr ''5''"
proof -
  let ?fs = "single_file ''cfg'' ''x 5 # comment\<newline>''"
  let ?p = "snd (addParameter ''x'' [] new_ParameterParser)"
  have a: "contents ?fs ''cfg'' = Some ''x 5 # comment\<newline>''" by (simp add: single_file_def)
  have b: "commentString ?p = DEFAULT_COMMENT_STRING"
    by (simp add: addParameter_def new_ParameterParser_def)
  have c: "map_find ''x'' (nameValueMap ?p) \<noteq> None"
    by (simp add: addParameter_def new_ParameterParser_def)
  from comment_line_sets_x [OF a b c, of "[]"] a b c show ?thesis by blast
qed

end
